theory Spec2Isabelle
  imports Main "HOL-Library.Char_ord" "HOL-Library.List_Lexorder" "HOL-Library.Product_Lexorder"
    "HOL-Library.Multiset"
begin

section \<open>Data: the services dataset, the station file, the macro's parameters\<close>

text \<open>
  Timestamps are whole minutes since the epoch: the batch job rounds every departure and
  arrival to a 5-minute grid (\<^verbatim>\<open>time_bucket(INTERVAL '5 minutes', ...)\<close> in
  \<^verbatim>\<open>etl/download_data.sql\<close>), so no timestamp of the dataset carries seconds.
  Station codes, municipality keys and province keys are strings.
\<close>

type_synonym timestamp = int

definition hour :: "timestamp \<Rightarrow> int" where
  "hour t = (t div 60) mod 24"

definition minute :: "timestamp \<Rightarrow> int" where
  "minute t = t mod 60"

definition date_diff_minute :: "timestamp \<Rightarrow> timestamp \<Rightarrow> int" where
  "date_diff_minute t1 t2 = t2 - t1"

text \<open>
  \<^verbatim>\<open>time_bucket(INTERVAL 'w minutes', t)\<close>: the start of the bucket of width \<open>w\<close> that
  holds \<open>t\<close>. The engine's bucket origin (2000-01-03 00:00) is a multiple of 15 minutes
  away from the epoch, so the buckets are the multiples of the width.
\<close>

definition time_bucket :: "int \<Rightarrow> timestamp \<Rightarrow> timestamp" where
  "time_bucket w t = t - t mod w"

text \<open>One row of \<^verbatim>\<open>exploded_raw_data\<close>, which is one row of the parquet dataset.\<close>

record train_service =
  day_of_week :: int
  service_id :: int
  departure_time_tb :: timestamp
  from_station_code :: string
  from_municipality_sk :: string
  from_province_sk :: string
  to_station_code :: string
  arrival_time_tb :: timestamp
  to_municipality_sk :: string
  to_province_sk :: string

text \<open>The columns of \<^verbatim>\<open>train_stations.csv\<close> that the queries read.\<close>

record train_station =
  station_code :: string
  municipality_sk :: string
  province_sk :: string
  number_of_monuments :: int

text \<open>
  The final \<^verbatim>\<open>WHERE\<close> of \<^verbatim>\<open>download_data\<close>, and the dataset it writes
  (\<^verbatim>\<open>COPY ... TO '../data/train_services.parquet'\<close>, partitioned by day of week).
\<close>

definition download_data_where :: "train_service \<Rightarrow> bool" where
  "download_data_where r \<longleftrightarrow>
     from_municipality_sk r \<noteq> to_municipality_sk r
     \<and> date_diff_minute (departure_time_tb r) (arrival_time_tb r) \<le> 60"

definition download_data :: "train_service list \<Rightarrow> train_service list" where
  "download_data exploded_raw_data = filter download_data_where exploded_raw_data"

text \<open>
  \<^verbatim>\<open>read_parquet('./data/train_services.parquet/day_of_week=N/data_0.parquet')\<close>: the rows
  of the partition of day \<open>N\<close>. A partition is written only for a day that has rows, so
  reading a day without rows is the engine's I/O error.
\<close>

datatype engine_error = IO_Error | Binder_Error

definition read_parquet :: "train_service list \<Rightarrow> int \<Rightarrow> engine_error + train_service list" where
  "read_parquet parquet dow =
     (let rows = filter (\<lambda>r. day_of_week r = dow) parquet
      in if rows = [] then Inl IO_Error else Inr rows)"

text \<open>The parameters of the macro \<^verbatim>\<open>get_trips\<close>, in the order of its declaration.\<close>

record get_trips_args =
  input_day_of_week :: int
  input_station_code :: string
  input_hour_departure :: int
  input_minute_departure :: int
  input_to_station_code :: string
  input_hour_arrival :: int
  input_layover_time :: int
  input_to_municipality_sk :: string

section \<open>The query: \<^verbatim>\<open>train_schedule\<close>\<close>

record scheduled = train_service +
  travel_time :: int

definition with_travel_time :: "train_service \<Rightarrow> scheduled" where
  "with_travel_time r =
     train_service.extend r
       (scheduled.fields (date_diff_minute (departure_time_tb r) (arrival_time_tb r)))"

definition train_schedule_where :: "get_trips_args \<Rightarrow> scheduled \<Rightarrow> bool" where
  "train_schedule_where a ts \<longleftrightarrow>
     \<not> (to_municipality_sk ts = input_to_municipality_sk a
        \<and> to_station_code ts \<noteq> input_to_station_code a)
     \<and> 15 \<le> travel_time ts \<and> travel_time ts \<le> 60"

definition train_schedule :: "get_trips_args \<Rightarrow> train_service list \<Rightarrow> scheduled list" where
  "train_schedule a src = filter (train_schedule_where a) (map with_travel_time src)"

section \<open>The query: \<^verbatim>\<open>planning\<close>, a recursive table\<close>

record planning =
  p_from_station_code :: string
  p_to_station_code :: string
  p_path :: "string list"
  p_time_schedule :: "timestamp list"
  p_municipalities :: "string list"
  p_provinces :: "string list"
  p_travel_time :: int
  p_departure_time_tb :: timestamp
  p_arrival_time_tb :: timestamp
  p_end_reached :: int
  p_to_municipality_sk :: string
  p_number_of_monuments :: int

text \<open>The first \<^verbatim>\<open>SELECT\<close>: the legs that leave the origin at the requested minute.\<close>

definition seed_where :: "get_trips_args \<Rightarrow> scheduled \<Rightarrow> bool" where
  "seed_where a ts \<longleftrightarrow>
     from_station_code ts = input_station_code a
     \<and> hour (departure_time_tb ts) = input_hour_departure a
     \<and> minute (departure_time_tb ts) = input_minute_departure a
     \<and> to_station_code ts \<noteq> input_to_station_code a"

definition seed_row :: "scheduled \<Rightarrow> train_station \<Rightarrow> planning" where
  "seed_row ts tss =
     \<lparr> p_from_station_code = from_station_code ts,
       p_to_station_code = to_station_code ts,
       p_path = [from_station_code ts, to_station_code ts],
       p_time_schedule = [departure_time_tb ts, arrival_time_tb ts],
       p_municipalities = [from_municipality_sk ts, to_municipality_sk ts],
       p_provinces = [from_province_sk ts, to_province_sk ts],
       p_travel_time = travel_time ts,
       p_departure_time_tb = departure_time_tb ts,
       p_arrival_time_tb = arrival_time_tb ts,
       p_end_reached = 0,
       p_to_municipality_sk = to_municipality_sk ts,
       p_number_of_monuments = number_of_monuments tss \<rparr>"

definition planning_seed ::
  "get_trips_args \<Rightarrow> scheduled list \<Rightarrow> train_station list \<Rightarrow> planning list" where
  "planning_seed a sched stations =
     [seed_row ts tss. ts \<leftarrow> sched, tss \<leftarrow> stations,
        to_station_code ts = station_code tss, seed_where a ts]"

text \<open>
  The second \<^verbatim>\<open>SELECT\<close>, run on the rows of the previous round. Its \<^verbatim>\<open>FROM\<close>
  joins a row of \<^verbatim>\<open>planning\<close> with a leg \<open>ts\<close> and the station row \<open>tss\<close> of the
  leg's end; its \<^verbatim>\<open>WHERE\<close> reads \<^verbatim>\<open>municipalities\<close> and \<^verbatim>\<open>end_reached\<close> of the
  \<^verbatim>\<open>planning\<close> row (a column wins over a select alias of the same name).
\<close>

definition join_on :: "get_trips_args \<Rightarrow> planning \<Rightarrow> scheduled \<Rightarrow> bool" where
  "join_on a p ts \<longleftrightarrow>
     p_to_station_code p = from_station_code ts
     \<and> time_bucket 15 (p_arrival_time_tb p + 60 * input_layover_time a)
         = time_bucket 15 (departure_time_tb ts)"

definition reaches_end :: "get_trips_args \<Rightarrow> scheduled \<Rightarrow> bool" where
  "reaches_end a ts \<longleftrightarrow>
     to_station_code ts = input_to_station_code a
     \<and> hour (arrival_time_tb ts) = input_hour_arrival a"

definition step_where :: "get_trips_args \<Rightarrow> planning \<Rightarrow> scheduled \<Rightarrow> bool" where
  "step_where a p ts \<longleftrightarrow>
     ((to_municipality_sk ts \<notin> set (p_municipalities p)
        \<and> to_municipality_sk ts \<noteq> input_to_municipality_sk a)
      \<or> reaches_end a ts)
     \<and> p_end_reached p = 0"

definition planning_join ::
  "get_trips_args \<Rightarrow> scheduled list \<Rightarrow> train_station list \<Rightarrow> planning list
     \<Rightarrow> (planning \<times> scheduled \<times> train_station) list" where
  "planning_join a sched stations W =
     [(p, ts, tss). p \<leftarrow> W, ts \<leftarrow> sched, join_on a p ts,
        tss \<leftarrow> stations, to_station_code ts = station_code tss, step_where a p ts]"

text \<open>\<^verbatim>\<open>(...)::int\<close> of a condition, and \<^verbatim>\<open>max(...) OVER (all rows)\<close>.\<close>

definition bool_int :: "bool \<Rightarrow> int" where
  "bool_int b = (if b then 1 else 0)"

fun window_max :: "int list \<Rightarrow> int" where
  "window_max [] = 0"
| "window_max [x] = x"
| "window_max (x # y # ys) = max x (window_max (y # ys))"

definition step_row :: "int \<Rightarrow> planning \<times> scheduled \<times> train_station \<Rightarrow> planning" where
  "step_row e j =
     (case j of (p, ts, tss) \<Rightarrow>
        \<lparr> p_from_station_code = from_station_code ts,
          p_to_station_code = to_station_code ts,
          p_path = p_path p @ [to_station_code ts],
          p_time_schedule = (p_time_schedule p @ [departure_time_tb ts]) @ [arrival_time_tb ts],
          p_municipalities = p_municipalities p @ [to_municipality_sk ts],
          p_provinces = p_provinces p @ [to_province_sk ts],
          p_travel_time = p_travel_time p + travel_time ts,
          p_departure_time_tb = departure_time_tb ts,
          p_arrival_time_tb = arrival_time_tb ts,
          p_end_reached = e,
          p_to_municipality_sk = p_to_municipality_sk p,
          p_number_of_monuments = p_number_of_monuments p + number_of_monuments tss \<rparr>)"

definition end_reached_window ::
  "get_trips_args \<Rightarrow> (planning \<times> scheduled \<times> train_station) list \<Rightarrow> int" where
  "end_reached_window a J = window_max (map (\<lambda>(p, ts, tss). bool_int (reaches_end a ts)) J)"

definition planning_step ::
  "get_trips_args \<Rightarrow> scheduled list \<Rightarrow> train_station list \<Rightarrow> planning list \<Rightarrow> planning list" where
  "planning_step a sched stations W =
     (let J = planning_join a sched stations W
      in map (step_row (end_reached_window a J)) J)"

text \<open>
  The recursive table: the rows of the first \<^verbatim>\<open>SELECT\<close>, then round after round the
  rows the second \<^verbatim>\<open>SELECT\<close> makes of the previous round's rows
  (\<^verbatim>\<open>UNION ALL\<close>), until a round makes no row. Every round either marks all its rows
  as ended or adds to each row a municipality of the schedule the row did not have, which
  bounds the number of rounds.
\<close>

definition room :: "scheduled list \<Rightarrow> planning \<Rightarrow> nat" where
  "room sched p =
     (if p_end_reached p = 0
      then Suc (card (to_municipality_sk ` set sched - set (p_municipalities p)))
      else 0)"

definition frontier_measure :: "scheduled list \<Rightarrow> planning list \<Rightarrow> nat" where
  "frontier_measure sched W = (if W = [] then 0 else Suc (Max (room sched ` set W)))"

lemma window_max_ge: "x \<in> set xs \<Longrightarrow> x \<le> window_max xs"
  by (induction xs rule: window_max.induct) auto

lemma planning_join_mem:
  "(p, ts, tss) \<in> set (planning_join a sched stations W) \<longleftrightarrow>
     p \<in> set W \<and> ts \<in> set sched \<and> join_on a p ts \<and> tss \<in> set stations
     \<and> to_station_code ts = station_code tss \<and> step_where a p ts"
  by (auto simp: planning_join_def)

lemma end_reached_window_0:
  assumes "(p, ts, tss) \<in> set J" and "end_reached_window a J = 0"
  shows "\<not> reaches_end a ts"
proof -
  have "bool_int (reaches_end a ts) \<in> set (map (\<lambda>(p, ts, tss). bool_int (reaches_end a ts)) J)"
    using assms(1) by force
  then have "bool_int (reaches_end a ts) \<le> end_reached_window a J"
    unfolding end_reached_window_def by (rule window_max_ge)
  with assms(2) show ?thesis by (simp add: bool_int_def split: if_splits)
qed

lemma room_step:
  assumes j: "(p, ts, tss) \<in> set J" and J: "J = planning_join a sched stations W"
    and e: "e = end_reached_window a J"
  shows "room sched (step_row e (p, ts, tss)) < room sched p"
proof -
  from j J have pW: "p \<in> set W" and ts: "ts \<in> set sched" and w: "step_where a p ts"
    by (simp_all add: planning_join_mem)
  from w have p0: "p_end_reached p = 0" by (simp add: step_where_def)
  show ?thesis
  proof (cases "e = 0")
    case True
    then have "\<not> reaches_end a ts" using j e by (simp add: end_reached_window_0)
    with w have new: "to_municipality_sk ts \<notin> set (p_municipalities p)"
      by (simp add: step_where_def)
    let ?U = "to_municipality_sk ` set sched"
    have "?U - set (p_municipalities p @ [to_municipality_sk ts])
          = (?U - set (p_municipalities p)) - {to_municipality_sk ts}" by auto
    moreover have "to_municipality_sk ts \<in> ?U - set (p_municipalities p)" using ts new by auto
    moreover have "finite (?U - set (p_municipalities p))" by simp
    ultimately have "card (?U - set (p_municipalities p @ [to_municipality_sk ts]))
          < card (?U - set (p_municipalities p))"
      by (metis card_Diff1_less)
    then show ?thesis using p0 True by (simp add: room_def step_row_def)
  next
    case False
    then show ?thesis using p0 by (simp add: room_def step_row_def)
  qed
qed

lemma planning_step_decreases:
  assumes "W \<noteq> []"
  shows "frontier_measure sched (planning_step a sched stations W) < frontier_measure sched W"
proof -
  define J where "J = planning_join a sched stations W"
  define e where "e = end_reached_window a J"
  have S: "planning_step a sched stations W = map (step_row e) J"
    by (simp add: planning_step_def J_def e_def Let_def)
  show ?thesis
  proof (cases "J = []")
    case True
    then show ?thesis using assms by (simp add: S frontier_measure_def)
  next
    case False
    have "\<forall>r \<in> set (map (step_row e) J). room sched r < Max (room sched ` set W)"
    proof
      fix r assume "r \<in> set (map (step_row e) J)"
      then obtain p ts tss where j: "(p, ts, tss) \<in> set J" and r: "r = step_row e (p, ts, tss)"
        by auto
      have "room sched r < room sched p" unfolding r by (rule room_step [OF j J_def e_def])
      moreover have "p \<in> set W" using j by (simp add: J_def planning_join_mem)
      then have "room sched p \<le> Max (room sched ` set W)" by simp
      ultimately show "room sched r < Max (room sched ` set W)" by simp
    qed
    then have "Max (room sched ` set (map (step_row e) J)) < Max (room sched ` set W)"
      using False by (subst Max_less_iff) auto
    then show ?thesis using False assms by (simp add: S frontier_measure_def)
  qed
qed

function planning_rec ::
  "get_trips_args \<Rightarrow> scheduled list \<Rightarrow> train_station list \<Rightarrow> planning list \<Rightarrow> planning list" where
  "planning_rec a sched stations W =
     (if W = [] then [] else W @ planning_rec a sched stations (planning_step a sched stations W))"
  by pat_completeness auto
termination
  by (relation "measure (\<lambda>(a, sched, stations, W). frontier_measure sched W)")
     (simp_all add: planning_step_decreases)

definition planning_table ::
  "get_trips_args \<Rightarrow> scheduled list \<Rightarrow> train_station list \<Rightarrow> planning list" where
  "planning_table a sched stations = planning_rec a sched stations (planning_seed a sched stations)"

section \<open>The query: \<^verbatim>\<open>distinct_paths\<close>\<close>

record distinct_path =
  d_path :: "string list"
  d_travel_time :: int
  d_time_schedule :: "timestamp list"
  d_municipalities :: "string list"
  d_provinces :: "string list"
  d_number_of_monuments :: int

definition list_distinct :: "'a list \<Rightarrow> 'a list" where
  "list_distinct xs = remdups xs"

definition list_sort :: "string list \<Rightarrow> string list" where
  "list_sort xs = sort xs"

definition distinct_paths_where :: "get_trips_args \<Rightarrow> planning \<Rightarrow> bool" where
  "distinct_paths_where a p \<longleftrightarrow>
     p_to_station_code p = input_to_station_code a
     \<and> hour (p_arrival_time_tb p) = input_hour_arrival a"

definition distinct_paths_row :: "planning \<Rightarrow> distinct_path" where
  "distinct_paths_row p =
     \<lparr> d_path = p_path p,
       d_travel_time = p_travel_time p,
       d_time_schedule = p_time_schedule p,
       d_municipalities = p_municipalities p,
       d_provinces = list_distinct (p_provinces p),
       d_number_of_monuments = p_number_of_monuments p \<rparr>"

text \<open>
  \<^verbatim>\<open>QUALIFY row_number() OVER (PARTITION BY key ORDER BY ord) = 1\<close>: of every
  partition, the first row in the order. The engine does not say which of two rows with
  equal \<open>ord\<close> comes first, nor in which order the partitions come out; the model sorts
  stably (rows that tie stay in the order of the input) and is one of the behaviours the
  engine may show.
\<close>

definition qualify_first :: "('r \<Rightarrow> 'k) \<Rightarrow> ('r \<Rightarrow> int) \<Rightarrow> 'r list \<Rightarrow> 'r list" where
  "qualify_first key ord rows =
     concat (map (\<lambda>k. take 1 (sort_key ord (filter (\<lambda>r. key r = k) rows)))
                 (remdups (map key rows)))"

definition terminated_rows :: "get_trips_args \<Rightarrow> planning list \<Rightarrow> distinct_path list" where
  "terminated_rows a pl = map distinct_paths_row (filter (distinct_paths_where a) pl)"

definition distinct_paths :: "get_trips_args \<Rightarrow> planning list \<Rightarrow> distinct_path list" where
  "distinct_paths a pl =
     qualify_first (\<lambda>r. list_sort (d_path r)) d_travel_time (terminated_rows a pl)"

section \<open>The query: \<^verbatim>\<open>optimal_paths\<close> and the final \<^verbatim>\<open>SELECT\<close>\<close>

record optimal_path =
  o_path :: "string list"
  o_municipalities :: "string list"
  o_time_schedule :: "timestamp list"
  o_travel_time :: int
  m_p :: int
  m_m :: "string list list option"
  o_number_of_monuments :: int

text \<open>
  \<^verbatim>\<open>array_agg(municipalities) OVER (ORDER BY m_p desc rows between unbounded preceding
  and 1 preceding)\<close>: the rows are put in descending order of \<open>m_p\<close> (stably, as above), and
  the frame of a row is the rows before it; the aggregate of an empty frame is
  \<^verbatim>\<open>NULL\<close>, here \<open>None\<close>.
\<close>

definition len :: "'a list \<Rightarrow> int" where
  "len xs = int (length xs)"

definition optimal_paths_row :: "distinct_path list \<Rightarrow> nat \<Rightarrow> optimal_path" where
  "optimal_paths_row ordered i =
     (let d = ordered ! i in
      \<lparr> o_path = d_path d,
        o_municipalities = d_municipalities d,
        o_time_schedule = d_time_schedule d,
        o_travel_time = d_travel_time d,
        m_p = len (d_provinces d),
        m_m = (if i = 0 then None else Some (map d_municipalities (take i ordered))),
        o_number_of_monuments = d_number_of_monuments d \<rparr>)"

definition optimal_paths :: "distinct_path list \<Rightarrow> optimal_path list" where
  "optimal_paths dps =
     (let ordered = sort_key (\<lambda>d. - len (d_provinces d)) dps
      in map (optimal_paths_row ordered) [0..<length ordered])"

text \<open>
  \<^verbatim>\<open>len(list_intersect(municipalities, flatten(m_m)))\<close>: \<^verbatim>\<open>list_intersect\<close> gives the
  elements of both lists without duplicates, and every function here gives \<^verbatim>\<open>NULL\<close> on
  a \<^verbatim>\<open>NULL\<close> argument.
\<close>

definition flatten :: "'a list list \<Rightarrow> 'a list" where
  "flatten xss = concat xss"

definition list_intersect :: "'a list \<Rightarrow> 'a list \<Rightarrow> 'a list" where
  "list_intersect l1 l2 = remdups (filter (\<lambda>x. x \<in> set l2) l1)"

definition no_overlaps_of :: "optimal_path \<Rightarrow> int option" where
  "no_overlaps_of r =
     (case m_m r of
        None \<Rightarrow> None
      | Some mm \<Rightarrow> Some (len (list_intersect (o_municipalities r) (flatten mm))))"

text \<open>
  \<^verbatim>\<open>ORDER BY no_overlaps ASC, number_of_monuments DESC, travel_time\<close>. The engine puts
  \<^verbatim>\<open>NULL\<close> last in an ascending order; the key compares lexicographically.
\<close>

definition order_by_key :: "optimal_path \<Rightarrow> (int \<times> int) \<times> int \<times> int" where
  "order_by_key r =
     ((case no_overlaps_of r of None \<Rightarrow> (1, 0) | Some n \<Rightarrow> (0, n)),
      - o_number_of_monuments r,
      o_travel_time r)"

definition ranked_paths :: "optimal_path list \<Rightarrow> optimal_path list" where
  "ranked_paths ops = sort_key order_by_key ops"



record trip =
  path :: "string list"
  time_schedule :: "timestamp list"
  no_overlaps :: "int option"

definition select_row :: "optimal_path \<Rightarrow> trip" where
  "select_row r =
     \<lparr> path = o_path r, time_schedule = o_time_schedule r, no_overlaps = no_overlaps_of r \<rparr>"

section \<open>The macro \<^verbatim>\<open>get_trips\<close>\<close>

definition ranked_trips ::
  "train_service list \<Rightarrow> train_station list \<Rightarrow> get_trips_args \<Rightarrow> optimal_path list" where
  "ranked_trips src stations a =
     ranked_paths (optimal_paths (distinct_paths a
       (planning_table a (train_schedule a src) stations)))"

definition get_trips ::
  "train_service list \<Rightarrow> train_station list \<Rightarrow> get_trips_args \<Rightarrow> engine_error + trip list" where
  "get_trips parquet stations a =
     (case read_parquet parquet (input_day_of_week a) of
        Inl e \<Rightarrow> Inl e
      | Inr src \<Rightarrow> Inr (map select_row (ranked_trips src stations a)))"

section \<open>The caller: \<^verbatim>\<open>executeTripQuery\<close> of \<^verbatim>\<open>data.js\<close>\<close>

text \<open>
  The parameters of the macro as \<^verbatim>\<open>CREATE OR REPLACE MACRO get_trips(...)\<close> declares
  them, and the arguments of the call that \<^verbatim>\<open>executeTripQuery\<close> writes, once with
  named placeholders and once with the values inline.
\<close>

definition get_trips_parameters :: "string list" where
  "get_trips_parameters =
     [''input_day_of_week'', ''input_station_code'', ''input_hour_departure'',
      ''input_minute_departure'', ''input_to_station_code'', ''input_hour_arrival'',
      ''input_layover_time'', ''input_to_municipality_sk'']"

datatype js_number = Integer int | Not_Integer

record params =
  dayOfWeek :: js_number
  stationCode :: string
  hourDeparture :: int
  minuteDeparture :: int
  toStationCode :: string
  hourArrival :: int
  minuteArrival :: int
  layoverTime :: int
  toMunicipalitySk :: string

datatype sql_argument = Placeholder string | Number js_number | Literal int | Quoted string

definition sqlQuery_arguments :: "sql_argument list" where
  "sqlQuery_arguments =
     [Placeholder ''input_day_of_week'', Placeholder ''input_station_code'',
      Placeholder ''input_hour_departure'', Placeholder ''input_minute_departure'',
      Placeholder ''input_to_station_code'', Placeholder ''input_hour_arrival'',
      Placeholder ''input_minute_arrival'', Placeholder ''input_layover_time'',
      Placeholder ''input_to_municipality_sk'']"

text \<open>\<^verbatim>\<open>s.replace(/'/g, "''")\<close>: every quote of the string doubled.\<close>

definition escape_quotes :: "string \<Rightarrow> string" where
  "escape_quotes s = concat (map (\<lambda>c. if c = CHR 0x27 then [c, c] else [c]) s)"

definition sqlInline_arguments :: "params \<Rightarrow> sql_argument list" where
  "sqlInline_arguments ps =
     [Number (dayOfWeek ps), Quoted (escape_quotes (stationCode ps)),
      Literal (hourDeparture ps), Literal (minuteDeparture ps),
      Quoted (escape_quotes (toStationCode ps)), Literal (hourArrival ps),
      Literal (minuteArrival ps), Literal (layoverTime ps),
      Quoted (escape_quotes (toMunicipalitySk ps))]"

text \<open>
  Errors are the \<^verbatim>\<open>Error\<close> objects of the script, told apart by their message. A
  promise of the engine settles after some milliseconds, with rows or with an error, or
  never does.
\<close>

datatype js_error = Error string

fun message :: "js_error \<Rightarrow> string" where
  "message (Error m) = m"

datatype 'r promise = Fulfilled nat 'r | Rejected nat js_error | Pending

text \<open>
  The engine as the caller meets it: what the set-up calls throw, the parameters of the
  macro it holds, the error of its binder and how long the binder takes to raise it, and
  how the evaluation of a call that binds settles, for the prepared statement and for the
  inline query.
\<close>

record 'r duckdb =
  ensure_throws :: "js_error option"
  fetch_throws :: "js_error option"
  macro_parameters :: "string list"
  binder_error :: js_error
  binder_ms :: nat
  statement_settles :: "'r promise"
  inline_settles :: "'r promise"

datatype engine_call = Prepare | Statement_Query | Statement_Close | Connection_Query

text \<open>A call of a macro binds when it has as many arguments as the macro has parameters.\<close>

definition binds :: "'r duckdb \<Rightarrow> sql_argument list \<Rightarrow> bool" where
  "binds db args \<longleftrightarrow> length args = length (macro_parameters db)"

definition prepare :: "'r duckdb \<Rightarrow> sql_argument list \<Rightarrow> js_error + unit" where
  "prepare db args = (if binds db args then Inr () else Inl (binder_error db))"

definition connection_query :: "'r duckdb \<Rightarrow> sql_argument list \<Rightarrow> 'r promise" where
  "connection_query db args =
     (if binds db args then inline_settles db else Rejected (binder_ms db) (binder_error db))"

text \<open>
  \<^verbatim>\<open>executeQueryWithTimeout\<close>: the promise races a timer of \<open>timeoutMs\<close> milliseconds; a
  promise that has not settled before the timer fires loses.
\<close>

definition timeout_error :: js_error where
  "timeout_error = Error ''unable to plan trip, increase the layover time''"

definition executeQueryWithTimeout :: "'r promise \<Rightarrow> nat \<Rightarrow> js_error + 'r" where
  "executeQueryWithTimeout queryPromise timeoutMs =
     (case queryPromise of
        Fulfilled ms rows \<Rightarrow> if ms < timeoutMs then Inr rows else Inl timeout_error
      | Rejected ms e \<Rightarrow> if ms < timeoutMs then Inl e else Inl timeout_error
      | Pending \<Rightarrow> Inl timeout_error)"

definition default_timeoutMs :: nat where
  "default_timeoutMs = 15000"

definition valid_day_of_week :: "js_number \<Rightarrow> bool" where
  "valid_day_of_week n = (case n of Integer d \<Rightarrow> 1 \<le> d \<and> d \<le> 7 | Not_Integer \<Rightarrow> False)"

definition invalid_day_error :: js_error where
  "invalid_day_error = Error ''Invalid day of week parameter''"

text \<open>
  The three set-up calls: \<^verbatim>\<open>ensureDuckDB\<close> and \<^verbatim>\<open>ensureMacroExecuted\<close>, then
  \<^verbatim>\<open>ensureServicesFileRegistered\<close>, which checks the day before it fetches.
\<close>

definition ensure_all :: "'r duckdb \<Rightarrow> params \<Rightarrow> js_error option" where
  "ensure_all db ps =
     (case ensure_throws db of
        Some e \<Rightarrow> Some e
      | None \<Rightarrow>
          if \<not> valid_day_of_week (dayOfWeek ps) then Some invalid_day_error
          else fetch_throws db)"

text \<open>The \<^verbatim>\<open>try\<close> block: the prepared statement, with the calls made to the engine.\<close>

definition try_prepared :: "'r duckdb \<Rightarrow> (js_error + 'r) \<times> engine_call list" where
  "try_prepared db =
     (case prepare db sqlQuery_arguments of
        Inl e \<Rightarrow> (Inl e, [Prepare])
      | Inr stmt \<Rightarrow>
          (case executeQueryWithTimeout (statement_settles db) default_timeoutMs of
             Inl e \<Rightarrow> (Inl e, [Prepare, Statement_Query])
           | Inr rows \<Rightarrow> (Inr rows, [Prepare, Statement_Query, Statement_Close])))"

text \<open>The \<^verbatim>\<open>catch\<close> block: the error it looks for is thrown on, any other starts the
  inline query.\<close>

definition catch_block ::
  "'r duckdb \<Rightarrow> params \<Rightarrow> js_error \<Rightarrow> (js_error + 'r) \<times> engine_call list" where
  "catch_block db ps e =
     (if message e = ''Unable to plan trip, increase the layover time'' then (Inl e, [])
      else if \<not> valid_day_of_week (dayOfWeek ps) then (Inl invalid_day_error, [])
      else (executeQueryWithTimeout (connection_query db (sqlInline_arguments ps))
              default_timeoutMs,
            [Connection_Query]))"

definition executeTripQuery ::
  "'r duckdb \<Rightarrow> params \<Rightarrow> (js_error + 'r) \<times> engine_call list" where
  "executeTripQuery db ps =
     (case ensure_all db ps of
        Some e \<Rightarrow> (Inl e, [])
      | None \<Rightarrow>
          (case try_prepared db of
             (Inr rows, calls) \<Rightarrow> (Inr rows, calls)
           | (Inl e, calls) \<Rightarrow>
               (case catch_block db ps e of (outcome, later) \<Rightarrow> (outcome, calls @ later))))"

section \<open>Fixtures\<close>

definition leg ::
  "string \<Rightarrow> string \<Rightarrow> string \<Rightarrow> timestamp \<Rightarrow> string \<Rightarrow> string \<Rightarrow> string \<Rightarrow> timestamp
     \<Rightarrow> train_service" where
  "leg f fm fp dep t tm tp arr =
     \<lparr> day_of_week = 1, service_id = 0, departure_time_tb = dep,
       from_station_code = f, from_municipality_sk = fm, from_province_sk = fp,
       to_station_code = t, arrival_time_tb = arr,
       to_municipality_sk = tm, to_province_sk = tp \<rparr>"

definition station :: "string \<Rightarrow> string \<Rightarrow> string \<Rightarrow> int \<Rightarrow> train_station" where
  "station c m p n =
     \<lparr> station_code = c, municipality_sk = m, province_sk = p, number_of_monuments = n \<rparr>"

text \<open>
  Scenario A of the specification: A to B from 08:00 to 08:30 and B to C from 09:00 to
  09:30 (minutes 480, 510, 540 and 570 of the day), three municipalities, no layover,
  from A at 08:00 to C with arrival hour 9.
\<close>

definition leg_AB :: train_service where
  "leg_AB = leg ''A'' ''mA'' ''pA'' 480 ''B'' ''mB'' ''pB'' 510"

definition leg_BC_0900 :: train_service where
  "leg_BC_0900 = leg ''B'' ''mB'' ''pB'' 540 ''C'' ''mC'' ''pC'' 570"

definition scenario_A_services :: "train_service list" where
  "scenario_A_services = [leg_AB, leg_BC_0900]"

definition station_A :: train_station where
  "station_A = station ''A'' ''mA'' ''pA'' 1"

definition station_B :: train_station where
  "station_B = station ''B'' ''mB'' ''pB'' 2"

definition station_C :: train_station where
  "station_C = station ''C'' ''mC'' ''pC'' 3"

definition scenario_A_stations :: "train_station list" where
  "scenario_A_stations = [station_A, station_B, station_C]"

definition scenario_A_query :: get_trips_args where
  "scenario_A_query =
     \<lparr> input_day_of_week = 1, input_station_code = ''A'',
       input_hour_departure = 8, input_minute_departure = 0,
       input_to_station_code = ''C'', input_hour_arrival = 9,
       input_layover_time = 0, input_to_municipality_sk = ''mC'' \<rparr>"

text \<open>The same with the second leg leaving B at 08:30 and arriving at 09:00.\<close>

definition leg_BC_0830 :: train_service where
  "leg_BC_0830 = leg ''B'' ''mB'' ''pB'' 510 ''C'' ''mC'' ''pC'' 540"

definition connecting_services :: "train_service list" where
  "connecting_services = [leg_AB, leg_BC_0830]"

text \<open>The row of the first round in both: the trip from A to B.\<close>

definition row_AB :: planning where
  "row_AB = seed_row (with_travel_time leg_AB) station_B"














section \<open>What a row of \<^verbatim>\<open>planning\<close> is made of\<close>

text \<open>
  A chain of legs, each starting where the one before ends, and the row that the query
  builds from it.
\<close>

fun contiguous :: "scheduled list \<Rightarrow> bool" where
  "contiguous [] = True"
| "contiguous [l] = True"
| "contiguous (l # l' # ls) =
     (to_station_code l = from_station_code l' \<and> contiguous (l' # ls))"

fun stations_of :: "scheduled list \<Rightarrow> string list" where
  "stations_of [] = []"
| "stations_of (l # ls) = from_station_code l # map to_station_code (l # ls)"

fun municipalities_of :: "scheduled list \<Rightarrow> string list" where
  "municipalities_of [] = []"
| "municipalities_of (l # ls) = from_municipality_sk l # map to_municipality_sk (l # ls)"

definition times_of :: "scheduled list \<Rightarrow> timestamp list" where
  "times_of ls = concat (map (\<lambda>l. [departure_time_tb l, arrival_time_tb l]) ls)"

definition made_of :: "scheduled list \<Rightarrow> planning \<Rightarrow> bool" where
  "made_of ls p \<longleftrightarrow>
     ls \<noteq> [] \<and> contiguous ls
     \<and> p_path p = stations_of ls
     \<and> p_time_schedule p = times_of ls
     \<and> p_municipalities p = municipalities_of ls
     \<and> p_travel_time p = sum_list (map travel_time ls)"

definition trip_made_of :: "scheduled list \<Rightarrow> trip \<Rightarrow> bool" where
  "trip_made_of ls t \<longleftrightarrow>
     ls \<noteq> [] \<and> contiguous ls \<and> path t = stations_of ls \<and> time_schedule t = times_of ls"

section \<open>Properties of the recursive table\<close>

declare planning_rec.simps [simp del]

lemma planning_rec_invariant:
  assumes "\<forall>p\<in>set W. I p"
    and "\<And>V. \<forall>p\<in>set V. I p \<Longrightarrow> \<forall>p\<in>set (planning_step a sched stations V). I p"
  shows "\<forall>p\<in>set (planning_rec a sched stations W). I p"
  using assms
proof (induction a sched stations W rule: planning_rec.induct)
  case (1 a sched stations W)
  show ?case
  proof (cases "W = []")
    case True
    then show ?thesis by (simp add: planning_rec.simps)
  next
    case False
    have "\<forall>p\<in>set (planning_step a sched stations W). I p" using "1.prems" by blast
    then have "\<forall>p\<in>set (planning_rec a sched stations (planning_step a sched stations W)). I p"
      using "1.IH" [OF False] "1.prems"(2) by blast
    then show ?thesis using "1.prems"(1) False
      by (subst planning_rec.simps) auto
  qed
qed

lemma planning_step_mem:
  assumes "r \<in> set (planning_step a sched stations W)"
  obtains p ts tss where "(p, ts, tss) \<in> set (planning_join a sched stations W)"
    and "r = step_row (end_reached_window a (planning_join a sched stations W)) (p, ts, tss)"
  using assms by (auto simp: planning_step_def Let_def)

lemma planning_seed_mem:
  assumes "r \<in> set (planning_seed a sched stations)"
  obtains ts tss where "ts \<in> set sched" and "tss \<in> set stations"
    and "to_station_code ts = station_code tss" and "seed_where a ts" and "r = seed_row ts tss"
  using assms by (auto simp: planning_seed_def split: if_splits)

lemma contiguous_snoc:
  "contiguous (ls @ [l]) \<longleftrightarrow>
     contiguous ls \<and> (ls = [] \<or> to_station_code (last ls) = from_station_code l)"
  by (induction ls rule: contiguous.induct) auto

lemma stations_of_snoc:
  "ls \<noteq> [] \<Longrightarrow> stations_of (ls @ [l]) = stations_of ls @ [to_station_code l]"
  by (cases ls) auto

lemma municipalities_of_snoc:
  "ls \<noteq> [] \<Longrightarrow> municipalities_of (ls @ [l]) = municipalities_of ls @ [to_municipality_sk l]"
  by (cases ls) auto

lemma made_of_seed: "made_of [ts] (seed_row ts tss) \<and> p_to_station_code (seed_row ts tss) = to_station_code (last [ts])"
  by (simp add: made_of_def seed_row_def times_of_def)

lemma made_of_step:
  assumes "made_of ls p" and "p_to_station_code p = to_station_code (last ls)"
    and "join_on a p ts"
  shows "made_of (ls @ [ts]) (step_row e (p, ts, tss))"
  using assms
  by (simp add: made_of_def step_row_def contiguous_snoc join_on_def times_of_def
      stations_of_snoc municipalities_of_snoc)

lemma planning_table_made_of:
  "\<forall>p\<in>set (planning_table a sched stations).
     \<exists>ls. set ls \<subseteq> set sched \<and> made_of ls p \<and> p_to_station_code p = to_station_code (last ls)"
  unfolding planning_table_def
proof (rule planning_rec_invariant)
  show "\<forall>p\<in>set (planning_seed a sched stations).
     \<exists>ls. set ls \<subseteq> set sched \<and> made_of ls p \<and> p_to_station_code p = to_station_code (last ls)"
  proof
    fix p assume "p \<in> set (planning_seed a sched stations)"
    then obtain ts tss where "ts \<in> set sched" "p = seed_row ts tss"
      by (rule planning_seed_mem)
    then have "set [ts] \<subseteq> set sched \<and> made_of [ts] p
        \<and> p_to_station_code p = to_station_code (last [ts])"
      using made_of_seed by simp
    then show "\<exists>ls. set ls \<subseteq> set sched \<and> made_of ls p
        \<and> p_to_station_code p = to_station_code (last ls)" by blast
  qed
next
  fix V
  assume IH: "\<forall>p\<in>set V.
     \<exists>ls. set ls \<subseteq> set sched \<and> made_of ls p \<and> p_to_station_code p = to_station_code (last ls)"
  show "\<forall>p\<in>set (planning_step a sched stations V).
     \<exists>ls. set ls \<subseteq> set sched \<and> made_of ls p \<and> p_to_station_code p = to_station_code (last ls)"
  proof
    fix r assume "r \<in> set (planning_step a sched stations V)"
    then obtain p ts tss e where j: "(p, ts, tss) \<in> set (planning_join a sched stations V)"
      and r: "r = step_row e (p, ts, tss)" by (blast elim: planning_step_mem)
    from j have pV: "p \<in> set V" and ts: "ts \<in> set sched" and on: "join_on a p ts"
      by (simp_all add: planning_join_mem)
    from IH pV obtain ls where ls: "set ls \<subseteq> set sched" "made_of ls p"
      "p_to_station_code p = to_station_code (last ls)" by blast
    have "set (ls @ [ts]) \<subseteq> set sched \<and> made_of (ls @ [ts]) r
        \<and> p_to_station_code r = to_station_code (last (ls @ [ts]))"
      using ls ts on by (simp add: r made_of_step) (simp add: step_row_def)
    then show "\<exists>ls. set ls \<subseteq> set sched \<and> made_of ls r
        \<and> p_to_station_code r = to_station_code (last ls)" by blast
  qed
qed

section \<open>From the recursive table to the result\<close>

lemma qualify_first_subset: "set (qualify_first key ord rows) \<subseteq> set rows"
proof
  fix r assume "r \<in> set (qualify_first key ord rows)"
  then obtain k where "r \<in> set (take 1 (sort_key ord (filter (\<lambda>r. key r = k) rows)))"
    by (auto simp: qualify_first_def)
  then have "r \<in> set (sort_key ord (filter (\<lambda>r. key r = k) rows))"
    by (rule in_set_takeD)
  then show "r \<in> set rows" by simp
qed

lemma distinct_paths_mem:
  assumes "d \<in> set (distinct_paths a pl)"
  obtains p where "p \<in> set pl" and "distinct_paths_where a p" and "d = distinct_paths_row p"
proof -
  from assms have "d \<in> set (terminated_rows a pl)"
    unfolding distinct_paths_def by (rule subsetD [OF qualify_first_subset])
  then show thesis using that by (auto simp: terminated_rows_def)
qed

lemma optimal_paths_mem:
  assumes "r \<in> set (optimal_paths dps)"
  obtains d where "d \<in> set dps" and "o_path r = d_path d"
    and "o_municipalities r = d_municipalities d" and "o_time_schedule r = d_time_schedule d"
    and "o_travel_time r = d_travel_time d" and "m_p r = len (d_provinces d)"
    and "o_number_of_monuments r = d_number_of_monuments d"
proof -
  define ordered where "ordered = sort_key (\<lambda>d. - len (d_provinces d)) dps"
  from assms obtain i where i: "i < length ordered" and r: "r = optimal_paths_row ordered i"
    by (auto simp: optimal_paths_def ordered_def Let_def)
  have "ordered ! i \<in> set ordered" using i by simp
  then have "ordered ! i \<in> set dps" by (simp add: ordered_def)
  then show thesis using that [of "ordered ! i"] r
    by (simp add: optimal_paths_row_def Let_def)
qed

lemma ranked_trips_mem:
  assumes "r \<in> set (ranked_trips src stations a)"
  obtains p where "p \<in> set (planning_table a (train_schedule a src) stations)"
    and "distinct_paths_where a p" and "o_path r = p_path p"
    and "o_municipalities r = p_municipalities p" and "o_time_schedule r = p_time_schedule p"
    and "o_travel_time r = p_travel_time p"
    and "o_number_of_monuments r = p_number_of_monuments p"
    and "m_p r = len (list_distinct (p_provinces p))"
proof -
  from assms have "r \<in> set (optimal_paths (distinct_paths a
       (planning_table a (train_schedule a src) stations)))"
    by (simp add: ranked_trips_def ranked_paths_def)
  then obtain d where d: "d \<in> set (distinct_paths a (planning_table a (train_schedule a src) stations))"
    and rd: "o_path r = d_path d" "o_municipalities r = d_municipalities d"
      "o_time_schedule r = d_time_schedule d" "o_travel_time r = d_travel_time d"
      "m_p r = len (d_provinces d)" "o_number_of_monuments r = d_number_of_monuments d"
    by (rule optimal_paths_mem)
  from d obtain p where "p \<in> set (planning_table a (train_schedule a src) stations)"
    and "distinct_paths_where a p" and "d = distinct_paths_row p"
    by (rule distinct_paths_mem)
  then show thesis using that [of p] rd by (simp add: distinct_paths_row_def)
qed

lemma get_trips_Inr:
  assumes "get_trips parquet stations a = Inr trips"
  obtains src where "read_parquet parquet (input_day_of_week a) = Inr src"
    and "trips = map select_row (ranked_trips src stations a)"
  using assms by (auto simp: get_trips_def split: sum.splits)

lemma train_schedule_mem:
  "ts \<in> set (train_schedule a src) \<longleftrightarrow>
     (\<exists>r\<in>set src. ts = with_travel_time r) \<and> train_schedule_where a ts"
  by (auto simp: train_schedule_def)

lemma travel_time_with_travel_time:
  "travel_time (with_travel_time r) = arrival_time_tb r - departure_time_tb r"
  by (simp add: with_travel_time_def date_diff_minute_def train_service.defs scheduled.defs)

section \<open>The service graph and the chains of legs\<close>

text \<open>
  C4. For a query with destination station \<open>D\<close> and destination municipality \<open>M\<close>,
  \<^verbatim>\<open>train_schedule\<close> holds a leg of the day's partition exactly when its travel time,
  arrival minus departure in minutes, is between 15 and 60 and it does not end in \<open>M\<close>
  at a station other than \<open>D\<close>; and every trip that \<^verbatim>\<open>get_trips\<close> returns is a chain
  of legs of \<^verbatim>\<open>train_schedule\<close>, each with a travel time between 15 and 60.
\<close>

theorem train_schedule_legal:
  "(ts \<in> set (train_schedule a src) \<longleftrightarrow>
      (\<exists>r\<in>set src. ts = with_travel_time r)
      \<and> 15 \<le> travel_time ts \<and> travel_time ts \<le> 60
      \<and> \<not> (to_municipality_sk ts = input_to_municipality_sk a
           \<and> to_station_code ts \<noteq> input_to_station_code a))
   \<and> travel_time (with_travel_time r) = arrival_time_tb r - departure_time_tb r
   \<and> (get_trips parquet stations a = Inr trips \<longrightarrow> t \<in> set trips \<longrightarrow>
        (\<exists>rows ls. read_parquet parquet (input_day_of_week a) = Inr rows
           \<and> trip_made_of ls t
           \<and> (\<forall>l\<in>set ls. l \<in> set (train_schedule a rows)
                 \<and> 15 \<le> travel_time l \<and> travel_time l \<le> 60)))"
proof (intro conjI impI)
  show "ts \<in> set (train_schedule a src) \<longleftrightarrow>
      (\<exists>r\<in>set src. ts = with_travel_time r)
      \<and> 15 \<le> travel_time ts \<and> travel_time ts \<le> 60
      \<and> \<not> (to_municipality_sk ts = input_to_municipality_sk a
           \<and> to_station_code ts \<noteq> input_to_station_code a)"
    by (auto simp: train_schedule_mem train_schedule_where_def)
next
  show "travel_time (with_travel_time r) = arrival_time_tb r - departure_time_tb r"
    by (rule travel_time_with_travel_time)
next
  assume g: "get_trips parquet stations a = Inr trips" and t: "t \<in> set trips"
  from g obtain rows where rows: "read_parquet parquet (input_day_of_week a) = Inr rows"
    and trips: "trips = map select_row (ranked_trips rows stations a)"
    by (rule get_trips_Inr)
  from t trips obtain r where r: "r \<in> set (ranked_trips rows stations a)" and tr: "t = select_row r"
    by auto
  from r obtain p where p: "p \<in> set (planning_table a (train_schedule a rows) stations)"
    and rp: "o_path r = p_path p" "o_time_schedule r = p_time_schedule p"
    by (rule ranked_trips_mem)
  from p planning_table_made_of obtain ls where ls: "set ls \<subseteq> set (train_schedule a rows)"
    and m: "made_of ls p" by blast
  have "trip_made_of ls t"
    using m rp by (simp add: tr trip_made_of_def made_of_def select_row_def)
  moreover have "\<forall>l\<in>set ls. l \<in> set (train_schedule a rows)
                 \<and> 15 \<le> travel_time l \<and> travel_time l \<le> 60"
    using ls by (auto simp: train_schedule_mem train_schedule_where_def)
  ultimately show "\<exists>rows ls. read_parquet parquet (input_day_of_week a) = Inr rows
           \<and> trip_made_of ls t
           \<and> (\<forall>l\<in>set ls. l \<in> set (train_schedule a rows)
                 \<and> 15 \<le> travel_time l \<and> travel_time l \<le> 60)"
    using rows by blast
qed

theorem train_schedule_legal_witness:
  "get_trips connecting_services scenario_A_stations scenario_A_query
     = Inr [\<lparr>path = [''A'', ''B'', ''C''], time_schedule = [480, 510, 510, 540],
             no_overlaps = None\<rparr>]
   \<and> (\<exists>rows ls.
         read_parquet connecting_services (input_day_of_week scenario_A_query) = Inr rows
         \<and> trip_made_of ls \<lparr>path = [''A'', ''B'', ''C''], time_schedule = [480, 510, 510, 540],
             no_overlaps = None\<rparr>
         \<and> (\<forall>l\<in>set ls. l \<in> set (train_schedule scenario_A_query rows)
               \<and> 15 \<le> travel_time l \<and> travel_time l \<le> 60))"
proof -
  let ?t = "\<lparr>path = [''A'', ''B'', ''C''], time_schedule = [480, 510, 510, 540],
             no_overlaps = None\<rparr>"
  have g: "get_trips connecting_services scenario_A_stations scenario_A_query = Inr [?t]"
    by code_simp
  have t: "?t \<in> set [?t]" by simp
  show ?thesis
    using train_schedule_legal [where parquet = connecting_services
        and stations = scenario_A_stations and a = scenario_A_query
        and trips = "[?t]" and t = ?t] g t
    by blast
qed

text \<open>
  C3. A row \<open>p\<close> of the previous round is joined with a leg \<open>ts\<close> that starts where
  \<open>p\<close> ends exactly when the 15-minute bucket of \<open>p\<close>'s arrival plus the layover hours
  is the 15-minute bucket of the leg's departure (the other conditions of the join and
  of the \<^verbatim>\<open>WHERE\<close> given); two times have the same bucket exactly when they have the
  same quotient by 15 minutes; every row of a round is made from such a pair; and a leg
  whose departure bucket is another one is not joined with \<open>p\<close>.
\<close>

theorem layover_compatibility:
  "(p \<in> set W \<and> ts \<in> set sched \<and> tss \<in> set stations
      \<and> to_station_code ts = station_code tss \<and> step_where a p ts
      \<and> p_to_station_code p = from_station_code ts \<longrightarrow>
      ((p, ts, tss) \<in> set (planning_join a sched stations W) \<longleftrightarrow>
         time_bucket 15 (p_arrival_time_tb p + 60 * input_layover_time a)
           = time_bucket 15 (departure_time_tb ts)))
   \<and> (time_bucket 15 t1 = time_bucket 15 t2 \<longleftrightarrow> t1 div 15 = t2 div 15)
   \<and> (r \<in> set (planning_step a sched stations W) \<longrightarrow>
        (\<exists>p ts tss. p \<in> set W \<and> ts \<in> set sched
           \<and> p_to_station_code p = from_station_code ts
           \<and> time_bucket 15 (p_arrival_time_tb p + 60 * input_layover_time a)
               = time_bucket 15 (departure_time_tb ts)
           \<and> p_path r = p_path p @ [to_station_code ts]
           \<and> p_time_schedule r
               = p_time_schedule p @ [departure_time_tb ts, arrival_time_tb ts]))
   \<and> (time_bucket 15 (departure_time_tb ts)
         \<noteq> time_bucket 15 (p_arrival_time_tb p + 60 * input_layover_time a) \<longrightarrow>
        (p, ts, tss) \<notin> set (planning_join a sched stations W))"
proof (intro conjI impI)
  assume "p \<in> set W \<and> ts \<in> set sched \<and> tss \<in> set stations
      \<and> to_station_code ts = station_code tss \<and> step_where a p ts
      \<and> p_to_station_code p = from_station_code ts"
  then show "(p, ts, tss) \<in> set (planning_join a sched stations W) \<longleftrightarrow>
         time_bucket 15 (p_arrival_time_tb p + 60 * input_layover_time a)
           = time_bucket 15 (departure_time_tb ts)"
    by (simp add: planning_join_mem join_on_def)
next
  have "t1 = 15 * (t1 div 15) + t1 mod 15" and "t2 = 15 * (t2 div 15) + t2 mod 15"
    by simp_all
  then show "time_bucket 15 t1 = time_bucket 15 t2 \<longleftrightarrow> t1 div 15 = t2 div 15"
    unfolding time_bucket_def by (simp add: minus_mod_eq_mult_div)
next
  assume "r \<in> set (planning_step a sched stations W)"
  then obtain p ts tss e where j: "(p, ts, tss) \<in> set (planning_join a sched stations W)"
    and r: "r = step_row e (p, ts, tss)" by (blast elim: planning_step_mem)
  from j have "p \<in> set W" "ts \<in> set sched" "join_on a p ts"
    by (simp_all add: planning_join_mem)
  then have "p \<in> set W \<and> ts \<in> set sched
           \<and> p_to_station_code p = from_station_code ts
           \<and> time_bucket 15 (p_arrival_time_tb p + 60 * input_layover_time a)
               = time_bucket 15 (departure_time_tb ts)
           \<and> p_path r = p_path p @ [to_station_code ts]
           \<and> p_time_schedule r
               = p_time_schedule p @ [departure_time_tb ts, arrival_time_tb ts]"
    by (simp add: join_on_def r step_row_def)
  then show "\<exists>p ts tss. p \<in> set W \<and> ts \<in> set sched
           \<and> p_to_station_code p = from_station_code ts
           \<and> time_bucket 15 (p_arrival_time_tb p + 60 * input_layover_time a)
               = time_bucket 15 (departure_time_tb ts)
           \<and> p_path r = p_path p @ [to_station_code ts]
           \<and> p_time_schedule r
               = p_time_schedule p @ [departure_time_tb ts, arrival_time_tb ts]"
    by blast
next
  assume "time_bucket 15 (departure_time_tb ts)
         \<noteq> time_bucket 15 (p_arrival_time_tb p + 60 * input_layover_time a)"
  then show "(p, ts, tss) \<notin> set (planning_join a sched stations W)"
    by (auto simp: planning_join_mem join_on_def)
qed

theorem layover_compatibility_witness:
  "(row_AB, with_travel_time leg_BC_0830, station_C)
      \<in> set (planning_join scenario_A_query (train_schedule scenario_A_query connecting_services)
               scenario_A_stations [row_AB])
   \<and> time_bucket 15 (p_arrival_time_tb row_AB + 60 * input_layover_time scenario_A_query)
       = time_bucket 15 (departure_time_tb (with_travel_time leg_BC_0830))
   \<and> (\<exists>p ts tss. p \<in> set [row_AB]
         \<and> ts \<in> set (train_schedule scenario_A_query connecting_services)
         \<and> p_to_station_code p = from_station_code ts
         \<and> time_bucket 15 (p_arrival_time_tb p + 60 * input_layover_time scenario_A_query)
             = time_bucket 15 (departure_time_tb ts)
         \<and> p_path (step_row 1 (row_AB, with_travel_time leg_BC_0830, station_C))
             = p_path p @ [to_station_code ts]
         \<and> p_time_schedule (step_row 1 (row_AB, with_travel_time leg_BC_0830, station_C))
             = p_time_schedule p @ [departure_time_tb ts, arrival_time_tb ts])
   \<and> (row_AB, with_travel_time leg_BC_0900, station_C)
      \<notin> set (planning_join scenario_A_query (train_schedule scenario_A_query scenario_A_services)
               scenario_A_stations [row_AB])"
proof -
  let ?Q = scenario_A_query and ?S = scenario_A_stations
  let ?r = "step_row 1 (row_AB, with_travel_time leg_BC_0830, station_C)"
  have pre: "row_AB \<in> set [row_AB]
      \<and> with_travel_time leg_BC_0830 \<in> set (train_schedule ?Q connecting_services)
      \<and> station_C \<in> set ?S
      \<and> to_station_code (with_travel_time leg_BC_0830) = station_code station_C
      \<and> step_where ?Q row_AB (with_travel_time leg_BC_0830)
      \<and> p_to_station_code row_AB = from_station_code (with_travel_time leg_BC_0830)"
    by code_simp
  have same: "time_bucket 15 (p_arrival_time_tb row_AB + 60 * input_layover_time ?Q)
       = time_bucket 15 (departure_time_tb (with_travel_time leg_BC_0830))"
    by code_simp
  have row: "?r \<in> set (planning_step ?Q (train_schedule ?Q connecting_services) ?S [row_AB])"
    by code_simp
  have other: "time_bucket 15 (departure_time_tb (with_travel_time leg_BC_0900))
       \<noteq> time_bucket 15 (p_arrival_time_tb row_AB + 60 * input_layover_time ?Q)"
    by code_simp
  note used = layover_compatibility [where p = row_AB and W = "[row_AB]"
      and ts = "with_travel_time leg_BC_0830"
      and sched = "train_schedule ?Q connecting_services"
      and tss = station_C and stations = ?S and a = ?Q and r = ?r]
  note unused = layover_compatibility [where p = row_AB and W = "[row_AB]"
      and ts = "with_travel_time leg_BC_0900"
      and sched = "train_schedule ?Q scenario_A_services"
      and tss = station_C and stations = ?S and a = ?Q]
  have 1: "(row_AB, with_travel_time leg_BC_0830, station_C)
      \<in> set (planning_join ?Q (train_schedule ?Q connecting_services) ?S [row_AB])"
    by (rule iffD2 [OF mp [OF conjunct1 [OF used] pre] same])
  have 3: "\<exists>p ts tss. p \<in> set [row_AB]
         \<and> ts \<in> set (train_schedule ?Q connecting_services)
         \<and> p_to_station_code p = from_station_code ts
         \<and> time_bucket 15 (p_arrival_time_tb p + 60 * input_layover_time ?Q)
             = time_bucket 15 (departure_time_tb ts)
         \<and> p_path ?r = p_path p @ [to_station_code ts]
         \<and> p_time_schedule ?r = p_time_schedule p @ [departure_time_tb ts, arrival_time_tb ts]"
    by (rule mp [OF conjunct1 [OF conjunct2 [OF conjunct2 [OF used]]] row])
  have 4: "(row_AB, with_travel_time leg_BC_0900, station_C)
      \<notin> set (planning_join ?Q (train_schedule ?Q scenario_A_services) ?S [row_AB])"
    by (rule mp [OF conjunct2 [OF conjunct2 [OF conjunct2 [OF unused]]] other])
  show ?thesis using 1 same 3 4 by (intro conjI)
qed



lemma end_reached_step_row: "p_end_reached (step_row e j) = e"
  by (cases j) (simp add: step_row_def)





lemma municipalities_step_row:
  "p_municipalities (step_row e (p, ts, tss)) = p_municipalities p @ [to_municipality_sk ts]"
  by (simp add: step_row_def)

lemma planning_table_municipalities:
  assumes "\<forall>ts\<in>set sched. from_municipality_sk ts \<noteq> to_municipality_sk ts"
  shows "\<forall>p\<in>set (planning_table a sched stations).
           (p_end_reached p = 0 \<longrightarrow> distinct (p_municipalities p))
           \<and> distinct (butlast (p_municipalities p))"
  unfolding planning_table_def
proof (rule planning_rec_invariant)
  show "\<forall>p\<in>set (planning_seed a sched stations).
           (p_end_reached p = 0 \<longrightarrow> distinct (p_municipalities p))
           \<and> distinct (butlast (p_municipalities p))"
  proof
    fix p assume "p \<in> set (planning_seed a sched stations)"
    then obtain ts tss where "ts \<in> set sched" "p = seed_row ts tss"
      by (rule planning_seed_mem)
    then show "(p_end_reached p = 0 \<longrightarrow> distinct (p_municipalities p))
           \<and> distinct (butlast (p_municipalities p))"
      using assms by (simp add: seed_row_def)
  qed
next
  fix V :: "planning list"
  assume IH: "\<forall>p\<in>set V. (p_end_reached p = 0 \<longrightarrow> distinct (p_municipalities p))
           \<and> distinct (butlast (p_municipalities p))"
  show "\<forall>r\<in>set (planning_step a sched stations V).
           (p_end_reached r = 0 \<longrightarrow> distinct (p_municipalities r))
           \<and> distinct (butlast (p_municipalities r))"
  proof
    fix r assume "r \<in> set (planning_step a sched stations V)"
    then obtain p ts tss where j: "(p, ts, tss) \<in> set (planning_join a sched stations V)"
      and r: "r = step_row (end_reached_window a (planning_join a sched stations V)) (p, ts, tss)"
      by (rule planning_step_mem)
    from j have pV: "p \<in> set V" and w: "step_where a p ts"
      by (simp_all add: planning_join_mem)
    from w have p0: "p_end_reached p = 0" by (simp add: step_where_def)
    with IH pV have d: "distinct (p_municipalities p)" by blast
    have "distinct (p_municipalities r)" if "p_end_reached r = 0"
    proof -
      from that have "end_reached_window a (planning_join a sched stations V) = 0"
        by (simp add: r end_reached_step_row)
      with j have "\<not> reaches_end a ts" by (rule end_reached_window_0)
      with w have "to_municipality_sk ts \<notin> set (p_municipalities p)"
        by (simp add: step_where_def)
      with d show ?thesis by (simp add: r municipalities_step_row)
    qed
    moreover have "distinct (butlast (p_municipalities r))"
      using d by (simp add: r municipalities_step_row)
    ultimately show "(p_end_reached r = 0 \<longrightarrow> distinct (p_municipalities r))
           \<and> distinct (butlast (p_municipalities r))" by blast
  qed
qed

lemma download_data_municipalities:
  assumes "read_parquet (download_data exploded_raw_data) dow = Inr rows"
  shows "\<forall>ts\<in>set (train_schedule a rows). from_municipality_sk ts \<noteq> to_municipality_sk ts"
proof -
  from assms have "set rows \<subseteq> set (download_data exploded_raw_data)"
    by (auto simp: read_parquet_def Let_def split: if_splits)
  then have "\<forall>r\<in>set rows. from_municipality_sk r \<noteq> to_municipality_sk r"
    by (auto simp: download_data_def download_data_where_def)
  then show ?thesis
    by (auto simp: train_schedule_mem with_travel_time_def train_service.defs scheduled.defs)
qed

text \<open>
  C5. A row \<open>p\<close> is joined with a leg \<open>ts\<close> only when the leg's end municipality is
  not among the municipalities of \<open>p\<close> (of all of them, so also not among all but the
  last) and is not the destination municipality, or the leg ends at the destination
  station with the requested arrival hour. On the dataset that \<^verbatim>\<open>download_data\<close>
  writes, whose legs join two municipalities, every returned trip is a chain of legs of
  \<^verbatim>\<open>train_schedule\<close> whose municipalities, the last left out, are pairwise different.
\<close>

theorem extension_rule:
  "((p, ts, tss) \<in> set (planning_join a sched stations W) \<longrightarrow>
       p_end_reached p = 0
       \<and> ((to_municipality_sk ts \<notin> set (butlast (p_municipalities p))
            \<and> to_municipality_sk ts \<notin> set (p_municipalities p)
            \<and> to_municipality_sk ts \<noteq> input_to_municipality_sk a)
          \<or> (to_station_code ts = input_to_station_code a
              \<and> hour (arrival_time_tb ts) = input_hour_arrival a)))
   \<and> (get_trips (download_data exploded_raw_data) stations a = Inr trips \<longrightarrow>
        t \<in> set trips \<longrightarrow>
        (\<exists>rows ls.
           read_parquet (download_data exploded_raw_data) (input_day_of_week a) = Inr rows
           \<and> set ls \<subseteq> set (train_schedule a rows)
           \<and> trip_made_of ls t \<and> distinct (butlast (municipalities_of ls))))"
proof (intro conjI impI)
  assume "(p, ts, tss) \<in> set (planning_join a sched stations W)"
  then have "step_where a p ts" by (simp add: planning_join_mem)
  then show "p_end_reached p = 0" by (simp add: step_where_def)
  from \<open>step_where a p ts\<close>
  show "(to_municipality_sk ts \<notin> set (butlast (p_municipalities p))
            \<and> to_municipality_sk ts \<notin> set (p_municipalities p)
            \<and> to_municipality_sk ts \<noteq> input_to_municipality_sk a)
          \<or> (to_station_code ts = input_to_station_code a
              \<and> hour (arrival_time_tb ts) = input_hour_arrival a)"
    by (auto simp: step_where_def reaches_end_def dest: in_set_butlastD)
next
  assume g: "get_trips (download_data exploded_raw_data) stations a = Inr trips"
    and t: "t \<in> set trips"
  from g obtain rows
    where rows: "read_parquet (download_data exploded_raw_data) (input_day_of_week a) = Inr rows"
    and trips: "trips = map select_row (ranked_trips rows stations a)"
    by (rule get_trips_Inr)
  from t trips obtain r where r: "r \<in> set (ranked_trips rows stations a)" and tr: "t = select_row r"
    by auto
  from r obtain p where p: "p \<in> set (planning_table a (train_schedule a rows) stations)"
    and rp: "o_path r = p_path p" "o_time_schedule r = p_time_schedule p"
    by (rule ranked_trips_mem)
  from p planning_table_made_of obtain ls where ls: "set ls \<subseteq> set (train_schedule a rows)"
    and m: "made_of ls p" by blast
  have "distinct (butlast (p_municipalities p))"
    using planning_table_municipalities [OF download_data_municipalities [OF rows]] p by blast
  then have "distinct (butlast (municipalities_of ls))" using m by (simp add: made_of_def)
  moreover have "trip_made_of ls t"
    using m rp by (simp add: tr trip_made_of_def made_of_def select_row_def)
  ultimately show "\<exists>rows ls.
           read_parquet (download_data exploded_raw_data) (input_day_of_week a) = Inr rows
           \<and> set ls \<subseteq> set (train_schedule a rows)
           \<and> trip_made_of ls t \<and> distinct (butlast (municipalities_of ls))"
    using rows ls by blast
qed

theorem extension_rule_witness:
  "(row_AB, with_travel_time leg_BC_0830, station_C)
      \<in> set (planning_join scenario_A_query (train_schedule scenario_A_query connecting_services)
               scenario_A_stations [row_AB])
   \<and> p_end_reached row_AB = 0
   \<and> get_trips (download_data connecting_services) scenario_A_stations scenario_A_query
       = Inr [\<lparr>path = [''A'', ''B'', ''C''], time_schedule = [480, 510, 510, 540],
               no_overlaps = None\<rparr>]
   \<and> (\<exists>rows ls.
         read_parquet (download_data connecting_services) (input_day_of_week scenario_A_query)
           = Inr rows
         \<and> set ls \<subseteq> set (train_schedule scenario_A_query rows)
         \<and> trip_made_of ls \<lparr>path = [''A'', ''B'', ''C''], time_schedule = [480, 510, 510, 540],
               no_overlaps = None\<rparr>
         \<and> distinct (butlast (municipalities_of ls)))"
proof -
  let ?Q = scenario_A_query and ?S = scenario_A_stations
  let ?t = "\<lparr>path = [''A'', ''B'', ''C''], time_schedule = [480, 510, 510, 540],
             no_overlaps = None\<rparr>"
  note rule = extension_rule [where p = row_AB and ts = "with_travel_time leg_BC_0830"
      and tss = station_C and a = ?Q and stations = ?S and W = "[row_AB]"
      and sched = "train_schedule ?Q connecting_services"
      and exploded_raw_data = connecting_services and trips = "[?t]" and t = ?t]
  have j: "(row_AB, with_travel_time leg_BC_0830, station_C)
      \<in> set (planning_join ?Q (train_schedule ?Q connecting_services) ?S [row_AB])"
    by code_simp
  have g: "get_trips (download_data connecting_services) ?S ?Q = Inr [?t]"
    by code_simp
  have t: "?t \<in> set [?t]" by simp
  have 1: "p_end_reached row_AB = 0"
    by (rule conjunct1 [OF mp [OF conjunct1 [OF rule] j]])
  have 2: "\<exists>rows ls.
         read_parquet (download_data connecting_services) (input_day_of_week ?Q) = Inr rows
         \<and> set ls \<subseteq> set (train_schedule ?Q rows)
         \<and> trip_made_of ls ?t \<and> distinct (butlast (municipalities_of ls))"
    by (rule mp [OF mp [OF conjunct2 [OF rule] g] t])
  show ?thesis using j 1 g 2 by (intro conjI)
qed



section \<open>The first row of a partition\<close>














section \<open>The ranking pass\<close>












section \<open>The final order\<close>






section \<open>The caller and the macro\<close>

lemma executeQueryWithTimeout_rejected:
  "\<exists>e. executeQueryWithTimeout (Rejected ms err) timeoutMs = Inl e"
  by (simp add: executeQueryWithTimeout_def)

lemma try_prepared_unbound:
  assumes "\<not> binds db sqlQuery_arguments"
  shows "try_prepared db = (Inl (binder_error db), [Prepare])"
  using assms by (simp add: try_prepared_def prepare_def)

lemma catch_block_unbound:
  assumes "\<not> binds db (sqlInline_arguments ps)"
  shows "\<exists>e. fst (catch_block db ps err) = Inl e"
  using assms executeQueryWithTimeout_rejected [of "binder_ms db" "binder_error db"]
  by (auto simp: catch_block_def connection_query_def)

text \<open>
  C1. The call that \<^verbatim>\<open>executeTripQuery\<close> writes has nine arguments, with placeholders
  and inline alike; the macro \<^verbatim>\<open>get_trips\<close> is declared with eight parameters, none
  of them for the minute of arrival. On an engine that holds this macro neither call
  binds, and whatever the input and the rest of the engine, \<^verbatim>\<open>executeTripQuery\<close> ends
  in an error and not in a list of trips.
\<close>

theorem executeTripQuery_never_binds:
  "length sqlQuery_arguments = 9
   \<and> length (sqlInline_arguments ps) = 9
   \<and> length get_trips_parameters = 8
   \<and> ''input_minute_arrival'' \<notin> set get_trips_parameters
   \<and> \<not> binds (db\<lparr>macro_parameters := get_trips_parameters\<rparr>) sqlQuery_arguments
   \<and> \<not> binds (db\<lparr>macro_parameters := get_trips_parameters\<rparr>) (sqlInline_arguments ps)
   \<and> (\<exists>e. fst (executeTripQuery (db\<lparr>macro_parameters := get_trips_parameters\<rparr>) ps) = Inl e)"
proof -
  let ?db = "db\<lparr>macro_parameters := get_trips_parameters\<rparr>"
  have n: "length sqlQuery_arguments = 9" "length (sqlInline_arguments ps) = 9"
    "length get_trips_parameters = 8"
    by (simp_all add: sqlQuery_arguments_def sqlInline_arguments_def get_trips_parameters_def)
  have m: "''input_minute_arrival'' \<notin> set get_trips_parameters"
    by (simp add: get_trips_parameters_def)
  have b1: "\<not> binds ?db sqlQuery_arguments" and b2: "\<not> binds ?db (sqlInline_arguments ps)"
    using n by (simp_all add: binds_def)
  have "\<exists>e. fst (executeTripQuery ?db ps) = Inl e"
  proof (cases "ensure_all ?db ps")
    case (Some e)
    then show ?thesis by (simp add: executeTripQuery_def)
  next
    case None
    from catch_block_unbound [OF b2] obtain e
      where "fst (catch_block ?db ps (binder_error ?db)) = Inl e" by blast
    then show ?thesis
      using None try_prepared_unbound [OF b1]
      by (cases "catch_block ?db ps (binder_error ?db)") (simp add: executeTripQuery_def)
  qed
  with n m b1 b2 show ?thesis by (intro conjI)
qed


end
